theory Spec2Isabelle
  imports Complex_Main "HOL-Library.Stream" "HOL-Library.Word"
begin

section \<open>Python values, errors and numeric helpers\<close>

text \<open>
  The module \<^verbatim>\<open>joystick.py\<close> is embedded method by method. Conventions:
  \<^item> the instance \<^verbatim>\<open>self\<close> is a record that every method takes and returns;
  \<^item> a raised exception is \<open>Inl e\<close>, a normal return is \<open>Inr (value, self')\<close>;
  \<^item> an ADC channel is the stream of the 16-bit samples it will deliver, one per
    \<^verbatim>\<open>read_u16()\<close> call; the button pin is the stream of the levels it will deliver;
  \<^item> Python's \<^verbatim>\<open>int\<close> is \<open>int\<close>; Python's \<^verbatim>\<open>float\<close> is idealised as \<open>real\<close>
    (exact arithmetic, no binary rounding);
  \<^item> console traffic (\<^verbatim>\<open>print\<close>, \<^verbatim>\<open>input\<close>) is not part of the model, and neither are
    the search for the file (\<^verbatim>\<open>find_file\<close>), the two asynchronous waiters and the
    interactive entry point.
\<close>

datatype error = ZeroDivisionError | IndexError | TypeError | AttributeError | OSError

text \<open>The values that calibration data is made of: integers, strings and lists.\<close>

datatype pyval = PInt int | PStr string | PList "pyval list"

definition ebind :: "error + 'a \<Rightarrow> ('a \<Rightarrow> error + 'b) \<Rightarrow> error + 'b" where
  "ebind m f = (case m of Inl e \<Rightarrow> Inl e | Inr x \<Rightarrow> f x)"

text \<open>\<^verbatim>\<open>round(x)\<close>: to the nearest integer, a tie going to the even neighbour.\<close>

definition py_round :: "real \<Rightarrow> int" where
  "py_round x =
     (let f = \<lfloor>x\<rfloor>; d = x - of_int f
      in if d < 1 / 2 then f else if 1 / 2 < d then f + 1 else if even f then f else f + 1)"

text \<open>\<^verbatim>\<open>round(x, n)\<close> for \<open>n \<ge> 0\<close>: the same rounding at the \<open>n\<close>-th decimal place.\<close>

definition py_round_ndigits :: "real \<Rightarrow> nat \<Rightarrow> real" where
  "py_round_ndigits x n = of_int (py_round (x * 10 ^ n)) / 10 ^ n"

text \<open>\<^verbatim>\<open>xs[i]\<close> on a list: a negative index counts from the end, out of range raises.\<close>

definition py_index :: "'a list \<Rightarrow> int \<Rightarrow> error + 'a" where
  "py_index xs i =
     (if 0 \<le> i \<and> i < int (length xs) then Inr (xs ! nat i)
      else if i < 0 \<and> - int (length xs) \<le> i then Inr (xs ! nat (int (length xs) + i))
      else Inl IndexError)"

text \<open>\<^verbatim>\<open>v[i]\<close> on a value: lists and strings are subscriptable, integers are not.\<close>

definition py_getitem :: "pyval \<Rightarrow> int \<Rightarrow> error + pyval" where
  "py_getitem v i =
     (case v of
        PList xs \<Rightarrow> py_index xs i
      | PStr s \<Rightarrow> py_index (map (\<lambda>c. PStr [c]) s) i
      | PInt _ \<Rightarrow> Inl TypeError)"

section \<open>The Joystick instance\<close>

record joystick =
  a1 :: "16 word stream"
  a2 :: "16 word stream"
  btn :: "bool stream"
  samples :: int
  deadzone :: int
  file_text :: string
  file_writable :: bool
  cal_data :: pyval
  middle1 :: int
  middle1_range :: "int list"
  middle2 :: int
  middle2_range :: "int list"
  middle :: "int list list"
  leftval :: pyval
  leftaxis :: pyval
  rightval :: pyval
  rightaxis :: pyval
  upval :: pyval
  upaxis :: pyval
  downval :: pyval
  downaxis :: pyval

text \<open>
  \<open>samples\<close> and \<open>deadzone\<close> are integers, as the docstring of \<^verbatim>\<open>__init__\<close> says.
  \<open>file_text\<close> is the text of the calibration file that \<^verbatim>\<open>self.file\<close> names, and
  \<open>file_writable\<close> says whether opening it for writing succeeds. A level of the
  button stream is \<open>True\<close> for high (\<^verbatim>\<open>value() == 1\<close>) and \<open>False\<close> for low.
\<close>

definition read_u16 :: "16 word stream \<Rightarrow> int \<times> 16 word stream" where
  "read_u16 adc = (uint (shd adc), stl adc)"

text \<open>\<^verbatim>\<open>sum(adc.read_u16() for _ in range(n))\<close>, with the channel after the reads.\<close>

fun read_sum :: "nat \<Rightarrow> 16 word stream \<Rightarrow> int \<times> 16 word stream" where
  "read_sum 0 adc = (0, adc)"
| "read_sum (Suc n) adc =
     (let (v, adc') = read_u16 adc; (s, adc'') = read_sum n adc' in (v + s, adc''))"

text \<open>
  \<^verbatim>\<open>axis_reader\<close>: channel 1 when \<^verbatim>\<open>axis == 1\<close>, channel 2 for every other value.
  \<^verbatim>\<open>range(samples)\<close> is empty for \<open>samples \<le> 0\<close>; the division raises for \<open>samples = 0\<close>.
\<close>

definition axis_reader :: "joystick \<Rightarrow> pyval \<Rightarrow> error + (int \<times> joystick)" where
  "axis_reader self axis =
     (if axis = PInt 1 then
        (let (s, adc) = read_sum (nat (samples self)) (a1 self)
         in if samples self = 0 then Inl ZeroDivisionError
            else Inr (py_round (of_int s / of_int (samples self)), self\<lparr>a1 := adc\<rparr>))
      else
        (let (s, adc) = read_sum (nat (samples self)) (a2 self)
         in if samples self = 0 then Inl ZeroDivisionError
            else Inr (py_round (of_int s / of_int (samples self)), self\<lparr>a2 := adc\<rparr>)))"

text \<open>\<^verbatim>\<open>axis - 1\<close>: defined on integers only.\<close>

definition py_pred :: "pyval \<Rightarrow> error + int" where
  "py_pred axis = (case axis of PInt ax \<Rightarrow> Inr (ax - 1) | _ \<Rightarrow> Inl TypeError)"

text \<open>\<^verbatim>\<open>(num) / (maxval - bound) * 100\<close> for an integer numerator.\<close>

definition ratio_percent :: "int \<Rightarrow> pyval \<Rightarrow> int \<Rightarrow> error + real" where
  "ratio_percent num maxval bound =
     (case maxval of
        PInt m \<Rightarrow>
          if m - bound = 0 then Inl ZeroDivisionError
          else Inr (of_int num / of_int (m - bound) * 100)
      | _ \<Rightarrow> Inl TypeError)"

text \<open>\<^verbatim>\<open>(num) / (bound - maxval) * 100\<close> for an integer numerator.\<close>

definition ratio_percent_low :: "int \<Rightarrow> int \<Rightarrow> pyval \<Rightarrow> error + real" where
  "ratio_percent_low num bound maxval =
     (case maxval of
        PInt m \<Rightarrow>
          if bound - m = 0 then Inl ZeroDivisionError
          else Inr (of_int num / of_int (bound - m) * 100)
      | _ \<Rightarrow> Inl TypeError)"

definition converter :: "joystick \<Rightarrow> pyval \<Rightarrow> pyval \<Rightarrow> error + (int \<times> joystick)" where
  "converter self axis maxval =
     ebind (axis_reader self axis) (\<lambda>(val, self').
     ebind (py_pred axis) (\<lambda>i.
     ebind (py_index (middle self') i) (\<lambda>band.
     ebind (py_index band 0) (\<lambda>mid1.
     ebind (py_index band 2) (\<lambda>mid2.
       if val > mid2 then
         ebind (ratio_percent (val - mid2) maxval mid2) (\<lambda>percent.
           Inr (py_round (min 100 (max 0 percent)), self'))
       else if val < mid1 then
         ebind (ratio_percent_low (mid1 - val) mid1 maxval) (\<lambda>percent.
           Inr (py_round (min 100 (max 0 percent)), self'))
       else Inr (0, self'))))))"

section \<open>Loading a calibration record\<close>

text \<open>\<^verbatim>\<open>data[i][j]\<close>.\<close>

definition getitem2 :: "pyval \<Rightarrow> int \<Rightarrow> int \<Rightarrow> error + pyval" where
  "getitem2 data i j = ebind (py_getitem data i) (\<lambda>row. py_getitem row j)"

text \<open>
  A centre value is multiplied by a float on the line after it is read, which raises
  \<^verbatim>\<open>TypeError\<close> for a string or a list.
\<close>

definition as_number :: "pyval \<Rightarrow> error + int" where
  "as_number v = (case v of PInt c \<Rightarrow> Inr c | _ \<Rightarrow> Inl TypeError)"

definition load_calib :: "joystick \<Rightarrow> pyval \<Rightarrow> error + joystick" where
  "load_calib self data =
     (let p_over = py_round_ndigits (of_int (100 + deadzone self) / 100) 2;
          p_under = py_round_ndigits (of_int (100 - deadzone self) / 100) 2
      in
      ebind (ebind (getitem2 data 0 2) as_number) (\<lambda>m1.
      let r1 = [py_round (of_int m1 * p_under), m1, py_round (of_int m1 * p_over)] in
      ebind (ebind (getitem2 data 0 4) as_number) (\<lambda>m2.
      let r2 = [py_round (of_int m2 * p_under), m2, py_round (of_int m2 * p_over)] in
      ebind (getitem2 data 1 2) (\<lambda>lv.
      ebind (getitem2 data 1 1) (\<lambda>la.
      ebind (getitem2 data 2 2) (\<lambda>rv.
      ebind (getitem2 data 2 1) (\<lambda>ra.
      ebind (getitem2 data 3 2) (\<lambda>uv.
      ebind (getitem2 data 3 1) (\<lambda>ua.
      ebind (getitem2 data 4 2) (\<lambda>dv.
      ebind (getitem2 data 4 1) (\<lambda>da.
        Inr (self\<lparr>middle1 := m1, middle1_range := r1,
                    middle2 := m2, middle2_range := r2,
                    middle := [r1, r2],
                    leftval := lv, leftaxis := la,
                    rightval := rv, rightaxis := ra,
                    upval := uv, upaxis := ua,
                    downval := dv, downaxis := da\<rparr>))))))))))))"

section \<open>Directions\<close>

text \<open>
  A direction method returns the percentage when \<^verbatim>\<open>percent\<close> is true and the
  truth value of \<^verbatim>\<open>p > 50\<close> otherwise.
\<close>

datatype reading = Percent int | Active bool

definition reading_of :: "bool \<Rightarrow> int \<Rightarrow> reading" where
  "reading_of percent p = (if percent then Percent p else Active (p > 50))"

definition up :: "joystick \<Rightarrow> bool \<Rightarrow> error + (reading \<times> joystick)" where
  "up self percent =
     ebind (converter self (upaxis self) (upval self)) (\<lambda>(p, self').
       Inr (reading_of percent p, self'))"

definition down :: "joystick \<Rightarrow> bool \<Rightarrow> error + (reading \<times> joystick)" where
  "down self percent =
     ebind (converter self (downaxis self) (downval self)) (\<lambda>(p, self').
       Inr (reading_of percent p, self'))"

definition right :: "joystick \<Rightarrow> bool \<Rightarrow> error + (reading \<times> joystick)" where
  "right self percent =
     ebind (converter self (rightaxis self) (rightval self)) (\<lambda>(p, self').
       Inr (reading_of percent p, self'))"

definition left :: "joystick \<Rightarrow> bool \<Rightarrow> error + (reading \<times> joystick)" where
  "left self percent =
     ebind (converter self (leftaxis self) (leftval self)) (\<lambda>(p, self').
       Inr (reading_of percent p, self'))"

text \<open>\<^verbatim>\<open>getattr(self, direction)\<close> followed by the call of the method found.\<close>

definition getattr_call ::
  "joystick \<Rightarrow> string \<Rightarrow> bool \<Rightarrow> error + (reading \<times> joystick)" where
  "getattr_call self direction percent =
     (if direction = ''up'' then up self percent
      else if direction = ''down'' then down self percent
      else if direction = ''right'' then right self percent
      else if direction = ''left'' then left self percent
      else Inl AttributeError)"

text \<open>The loop that fills \<^verbatim>\<open>directions\<close> with \<^verbatim>\<open>[direction, method(True)]\<close>.\<close>

fun collect_directions ::
  "string list \<Rightarrow> joystick \<Rightarrow> (string \<times> reading) list
     \<Rightarrow> error + ((string \<times> reading) list \<times> joystick)" where
  "collect_directions [] self directions = Inr (directions, self)"
| "collect_directions (direction # rest) self directions =
     ebind (getattr_call self direction True) (\<lambda>(r, self').
       collect_directions rest self' (directions @ [(direction, r)]))"

text \<open>The integer a reading compares as: a Python truth value is the integer 0 or 1.\<close>

definition reading_int :: "reading \<Rightarrow> int" where
  "reading_int r = (case r of Percent p \<Rightarrow> p | Active b \<Rightarrow> (if b then 1 else 0))"

text \<open>
  \<^verbatim>\<open>xs.sort(key=k, reverse=True)\<close>: descending by key, and elements with equal keys
  keep their order (Python's sort is stable, also when reversed). \<open>sort_key\<close> is a
  stable insertion sort, here on the negated key.
\<close>

definition sort_reverse :: "('a \<Rightarrow> int) \<Rightarrow> 'a list \<Rightarrow> 'a list" where
  "sort_reverse k xs = sort_key (\<lambda>x. - k x) xs"

datatype result = RNone | RStr string | RPair string reading

definition max_direction :: "joystick \<Rightarrow> bool \<Rightarrow> error + (result \<times> joystick)" where
  "max_direction self as_bool =
     ebind (collect_directions [''up'', ''down'', ''right'', ''left''] self []) (\<lambda>(ds, self').
     let directions = sort_reverse (\<lambda>x. reading_int (snd x)) ds in
     ebind (py_index directions 0) (\<lambda>top.
       if reading_int (snd top) = 0 then Inr (RNone, self')
       else if as_bool then
         Inr (if reading_int (snd top) > 50 then RStr (fst top) else RNone, self')
       else Inr (RPair (fst top) (snd top), self')))"

section \<open>Button and combined query\<close>

definition pin_value :: "bool stream \<Rightarrow> int \<times> bool stream" where
  "pin_value pin = (if shd pin then 1 else 0, stl pin)"

definition button :: "joystick \<Rightarrow> bool \<times> joystick" where
  "button self = (let (v, pin) = pin_value (btn self) in (v = 0, self\<lparr>btn := pin\<rparr>))"

definition get :: "joystick \<Rightarrow> bool \<Rightarrow> error + (result \<times> joystick)" where
  "get self as_bool =
     (let (pressed, self') = button self
      in if pressed then Inr (RStr ''button'', self') else max_direction self' as_bool)"

section \<open>Text of a value\<close>

text \<open>
  \<^verbatim>\<open>repr\<close> of integers, strings and lists. A string of the model is a sequence of
  8-bit characters; the escapes are Python's on the ASCII range, and every
  character from 128 on is written as a \<^verbatim>\<open>\x\<close> escape.
\<close>

definition digit_char :: "nat \<Rightarrow> char" where
  "digit_char d = char_of (48 + d)"

fun digits_of :: "nat \<Rightarrow> string" where
  "digits_of n = (if n < 10 then [digit_char n] else digits_of (n div 10) @ [digit_char (n mod 10)])"

declare digits_of.simps [simp del]

definition repr_int :: "int \<Rightarrow> string" where
  "repr_int i = (if i < 0 then CHR ''-'' # digits_of (nat (- i)) else digits_of (nat i))"

definition hex_char :: "nat \<Rightarrow> char" where
  "hex_char d = (if d < 10 then char_of (48 + d) else char_of (87 + d))"

definition repr_char :: "char \<Rightarrow> char \<Rightarrow> string" where
  "repr_char q c =
     (if c = q \<or> c = CHR 0x5C then [CHR 0x5C, c]
      else if c = CHR 0x09 then [CHR 0x5C, CHR ''t'']
      else if c = CHR 0x0A then [CHR 0x5C, CHR ''n'']
      else if c = CHR 0x0D then [CHR 0x5C, CHR ''r'']
      else if (of_char c :: nat) < 32 \<or> 127 \<le> (of_char c :: nat) then
        [CHR 0x5C, CHR ''x'', hex_char (of_char c div 16), hex_char (of_char c mod 16)]
      else [c])"

definition repr_str :: "string \<Rightarrow> string" where
  "repr_str s =
     (let q = (if CHR 0x27 \<in> set s \<and> CHR 0x22 \<notin> set s then CHR 0x22 else CHR 0x27)
      in q # concat (map (repr_char q) s) @ [q])"

fun py_repr :: "pyval \<Rightarrow> string" and repr_items :: "pyval list \<Rightarrow> string" where
  "py_repr (PInt i) = repr_int i"
| "py_repr (PStr s) = repr_str s"
| "py_repr (PList xs) = ''['' @ repr_items xs @ '']''"
| "repr_items [] = []"
| "repr_items [x] = py_repr x"
| "repr_items (x # y # ys) = py_repr x @ '', '' @ repr_items (y # ys)"

text \<open>\<^verbatim>\<open>str(v)\<close>, which an f-string applies: a string is itself, the rest is its \<^verbatim>\<open>repr\<close>.\<close>

definition py_str :: "pyval \<Rightarrow> string" where
  "py_str v = (case v of PStr s \<Rightarrow> s | _ \<Rightarrow> py_repr v)"

section \<open>The calibration file\<close>

text \<open>
  \<^verbatim>\<open>readlines()\<close>: the text cut after every newline character, each line keeping
  its newline. No newline translation takes place.
\<close>

fun readlines :: "string \<Rightarrow> string list" where
  "readlines [] = []"
| "readlines (c # cs) =
     (if c = CHR 0x0A then [c] # readlines cs
      else (case readlines cs of [] \<Rightarrow> [[c]] | l # ls \<Rightarrow> (c # l) # ls))"

text \<open>\<^verbatim>\<open>xs[i] = v\<close> on a list.\<close>

definition py_setitem :: "'a list \<Rightarrow> int \<Rightarrow> 'a \<Rightarrow> error + 'a list" where
  "py_setitem xs i v =
     (if 0 \<le> i \<and> i < int (length xs) then Inr (xs[nat i := v])
      else if i < 0 \<and> - int (length xs) \<le> i then Inr (xs[nat (int (length xs) + i) := v])
      else Inl IndexError)"

text \<open>A line that ends with its newline, which is its only one.\<close>

definition complete_line :: "string \<Rightarrow> bool" where
  "complete_line l \<longleftrightarrow> l \<noteq> [] \<and> last l = CHR 0x0A \<and> CHR 0x0A \<notin> set (butlast l)"

section \<open>Calibration\<close>

text \<open>
  The body of the loop after the two reads: the entry appended for a pose whose raw
  readings are \<open>aval1\<close> and \<open>aval2\<close>.
\<close>

definition pose_entry :: "string \<Rightarrow> int \<Rightarrow> int \<Rightarrow> pyval" where
  "pose_entry direction aval1 aval2 =
     (let diff1 = \<bar>32767.5 - of_int aval1 :: real\<bar>;
          diff2 = \<bar>32767.5 - of_int aval2 :: real\<bar>;
          (data, axis) = (if diff1 > diff2 then (aval1, 1) else (aval2, 2))
      in if direction = ''MIDDLE''
         then PList [PStr direction, PInt 1, PInt aval1, PInt 2, PInt aval2]
         else PList [PStr direction, PInt axis, PInt data])"

text \<open>
  The loop over the poses. \<open>acc\<close> is the list that \<^verbatim>\<open>self.cal_data\<close> refers to.
\<close>

fun calibrate_poses :: "string list \<Rightarrow> pyval list \<Rightarrow> joystick \<Rightarrow> joystick" where
  "calibrate_poses [] acc self = self\<lparr>cal_data := PList acc\<rparr>"
| "calibrate_poses (direction # rest) acc self =
     (let (aval1, adc1) = read_u16 (a1 self);
          (aval2, adc2) = read_u16 (a2 self)
      in calibrate_poses rest (acc @ [pose_entry direction aval1 aval2])
           (self\<lparr>a1 := adc1, a2 := adc2\<rparr>))"

text \<open>
  \<^verbatim>\<open>calibrate\<close>. Every exception of the file part is caught, and the handler only
  prints: when line 2 does not exist, or the file cannot be opened for writing, the
  file is left as it was.
\<close>

definition calibrate :: "joystick \<Rightarrow> joystick" where
  "calibrate self =
     (let self' = calibrate_poses [''MIDDLE'', ''LEFT'', ''RIGHT'', ''UP'', ''DOWN''] [] self;
          lines = readlines (file_text self')
      in case py_setitem lines 1 (py_str (cal_data self') @ [CHR 0x0A]) of
           Inl e \<Rightarrow> self'
         | Inr lines' \<Rightarrow>
             if file_writable self' then self'\<lparr>file_text := concat lines'\<rparr> else self')"

section \<open>Reading a value back\<close>

text \<open>
  \<^verbatim>\<open>eval\<close> on the text of line 2, modelled on the literals that \<^verbatim>\<open>repr\<close>
  produces and a little more: decimal integers (no leading zero before another
  digit), an optional minus sign, string literals in single or double quotes with
  the escapes of \<^verbatim>\<open>repr\<close>, and lists with blanks around the items and an
  optional comma after the last one. Where the model returns \<open>Some v\<close>, \<open>v\<close> is
  the value of the text; \<open>None\<close> stands for every other text, whether Python
  rejects it or evaluates an expression that is not such a literal. The fuel of
  \<open>parse_value\<close> bounds the nesting and the number of items; \<open>py_eval\<close> supplies
  more than the length of the text.
\<close>

definition is_digit :: "char \<Rightarrow> bool" where
  "is_digit c \<longleftrightarrow> 48 \<le> (of_char c :: nat) \<and> (of_char c :: nat) \<le> 57"

definition digit_val :: "char \<Rightarrow> nat" where
  "digit_val c = of_char c - 48"

definition digits_value :: "string \<Rightarrow> nat" where
  "digits_value ds = foldl (\<lambda>a c. 10 * a + digit_val c) 0 ds"

definition parse_nat :: "string \<Rightarrow> (nat \<times> string) option" where
  "parse_nat s =
     (let ds = takeWhile is_digit s; r = dropWhile is_digit s
      in if ds = [] then None
         else if 1 < length ds \<and> hd ds = CHR ''0'' \<and> (\<exists>c \<in> set ds. c \<noteq> CHR ''0'') then None
         else Some (digits_value ds, r))"

definition hex_val :: "char \<Rightarrow> nat option" where
  "hex_val c =
     (let n = (of_char c :: nat)
      in if 48 \<le> n \<and> n \<le> 57 then Some (n - 48)
         else if 97 \<le> n \<and> n \<le> 102 then Some (n - 87)
         else if 65 \<le> n \<and> n \<le> 70 then Some (n - 55)
         else None)"

fun parse_string_body :: "char \<Rightarrow> string \<Rightarrow> (string \<times> string) option" where
  "parse_string_body q [] = None"
| "parse_string_body q [c] = (if c = q then Some ([], []) else None)"
| "parse_string_body q (c # e # cs) =
     (if c = q then Some ([], e # cs)
      else if c = CHR 0x0A then None
      else if c = CHR 0x5C then
        (if e = CHR 0x5C \<or> e = CHR 0x27 \<or> e = CHR 0x22 then
           map_option (\<lambda>(t, r). (e # t, r)) (parse_string_body q cs)
         else if e = CHR ''n'' then
           map_option (\<lambda>(t, r). (CHR 0x0A # t, r)) (parse_string_body q cs)
         else if e = CHR ''t'' then
           map_option (\<lambda>(t, r). (CHR 0x09 # t, r)) (parse_string_body q cs)
         else if e = CHR ''r'' then
           map_option (\<lambda>(t, r). (CHR 0x0D # t, r)) (parse_string_body q cs)
         else if e = CHR ''x'' then
           (case cs of
              h1 # h2 # cs' \<Rightarrow>
                (case (hex_val h1, hex_val h2) of
                   (Some d1, Some d2) \<Rightarrow>
                     map_option (\<lambda>(t, r). (char_of (16 * d1 + d2) # t, r))
                       (parse_string_body q cs')
                 | _ \<Rightarrow> None)
            | _ \<Rightarrow> None)
         else None)
      else map_option (\<lambda>(t, r). (c # t, r)) (parse_string_body q (e # cs)))"

definition skip_spaces :: "string \<Rightarrow> string" where
  "skip_spaces s = dropWhile (\<lambda>c. c = CHR 0x20) s"

fun parse_value :: "nat \<Rightarrow> string \<Rightarrow> (pyval \<times> string) option"
  and parse_items :: "nat \<Rightarrow> string \<Rightarrow> (pyval list \<times> string) option" where
  "parse_value 0 s = None"
| "parse_value (Suc n) s =
     (case skip_spaces s of
        [] \<Rightarrow> None
      | c # cs \<Rightarrow>
          if c = CHR ''['' then
            (case skip_spaces cs of
               [] \<Rightarrow> None
             | d # r \<Rightarrow>
                 if d = CHR '']'' then Some (PList [], r)
                 else map_option (\<lambda>(vs, r'). (PList vs, r')) (parse_items n cs))
          else if c = CHR 0x27 \<or> c = CHR 0x22 then
            map_option (\<lambda>(t, r). (PStr t, r)) (parse_string_body c cs)
          else if c = CHR ''-'' then
            map_option (\<lambda>(k, r). (PInt (- int k), r)) (parse_nat cs)
          else map_option (\<lambda>(k, r). (PInt (int k), r)) (parse_nat (c # cs)))"
| "parse_items 0 s = None"
| "parse_items (Suc n) s =
     (case parse_value n s of
        None \<Rightarrow> None
      | Some (v, r) \<Rightarrow>
          (case skip_spaces r of
             [] \<Rightarrow> None
           | c # r' \<Rightarrow>
               if c = CHR '']'' then Some ([v], r')
               else if c = CHR '','' then
                 (case skip_spaces r' of
                    [] \<Rightarrow> None
                  | d # r'' \<Rightarrow>
                      if d = CHR '']'' then Some ([v], r'')
                      else map_option (\<lambda>(vs, r3). (v # vs, r3)) (parse_items n r'))
               else None))"

declare parse_value.simps [simp del] parse_items.simps [simp del]

definition py_eval :: "string \<Rightarrow> pyval option" where
  "py_eval s =
     (case parse_value (Suc (length s)) s of
        None \<Rightarrow> None
      | Some (v, r) \<Rightarrow> if skip_spaces r = [] then Some v else None)"

text \<open>Fuel that suffices to read the text of a value back.\<close>

fun value_fuel :: "pyval \<Rightarrow> nat" and items_fuel :: "pyval list \<Rightarrow> nat" where
  "value_fuel (PInt i) = 1"
| "value_fuel (PStr s) = 1"
| "value_fuel (PList xs) = Suc (items_fuel xs)"
| "items_fuel [] = 0"
| "items_fuel (x # xs) = Suc (max (value_fuel x) (items_fuel xs))"

text \<open>\<^verbatim>\<open>str.strip()\<close> and the lines of \<^verbatim>\<open>__init__\<close> that read the record.\<close>

definition is_space :: "char \<Rightarrow> bool" where
  "is_space c \<longleftrightarrow> c \<in> {CHR 0x20, CHR 0x09, CHR 0x0A, CHR 0x0B, CHR 0x0C, CHR 0x0D}"

definition py_strip :: "string \<Rightarrow> string" where
  "py_strip s = rev (dropWhile is_space (rev (dropWhile is_space s)))"

definition read_cal_data :: "joystick \<Rightarrow> error + joystick" where
  "read_cal_data self =
     (let raw_data = py_strip (case readlines (file_text self) of _ # l # _ \<Rightarrow> l | _ \<Rightarrow> [])
      in case py_eval raw_data of
           None \<Rightarrow> Inl OSError
         | Some v \<Rightarrow> Inr (self\<lparr>cal_data := v\<rparr>))"

text \<open>
  The rest of \<^verbatim>\<open>__init__\<close>, from the file that \<^verbatim>\<open>find_file\<close> returned: an empty
  record starts the calibration, and the record is loaded.
\<close>

definition init :: "joystick \<Rightarrow> error + joystick" where
  "init self =
     ebind (read_cal_data self) (\<lambda>self1.
       let self2 = (if cal_data self1 = PList [] then calibrate self1 else self1)
       in load_calib self2 (cal_data self2))"

section \<open>Wording of the specification\<close>

text \<open>\<open>clamp x lo hi\<close> as the specification uses it: \<open>x\<close> limited to \<open>[lo, hi]\<close>.\<close>

definition clamp :: "real \<Rightarrow> real \<Rightarrow> real \<Rightarrow> real" where
  "clamp x lo hi = (if x < lo then lo else if hi < x then hi else x)"

section \<open>A concrete instance\<close>

text \<open>
  The scenario of the specification: centre 32768 on both axes, LEFT and RIGHT on
  axis 1 at 10000 and 55000, UP and DOWN on axis 2 at 10000 and 55000, three samples
  per reading and a deadzone of 3 percent. \<open>unloaded\<close> is the instance before
  \<^verbatim>\<open>load_calib\<close> has run, \<open>scenario\<close> the instance after it.
\<close>

definition scenario_data :: pyval where
  "scenario_data =
     PList [PList [PStr ''MIDDLE'', PInt 1, PInt 32768, PInt 2, PInt 32768],
            PList [PStr ''LEFT'', PInt 1, PInt 10000],
            PList [PStr ''RIGHT'', PInt 1, PInt 55000],
            PList [PStr ''UP'', PInt 2, PInt 10000],
            PList [PStr ''DOWN'', PInt 2, PInt 55000]]"

text \<open>The first three lines of \<^verbatim>\<open>joystick.py\<close> itself, which is its own calibration file.\<close>

definition sample_file :: string where
  "sample_file =
     ''# Calibration (will be automatically written)'' @ [CHR 0x0A] @
     ''[]'' @ [CHR 0x0A] @
     ''# Created by Tueftler.py'' @ [CHR 0x0A]"

definition unloaded :: "16 word stream \<Rightarrow> 16 word stream \<Rightarrow> bool stream \<Rightarrow> joystick" where
  "unloaded c1 c2 pin =
     \<lparr>a1 = c1, a2 = c2, btn = pin, samples = 3, deadzone = 3,
      file_text = [], file_writable = True, cal_data = scenario_data,
      middle1 = 0, middle1_range = [], middle2 = 0, middle2_range = [], middle = [],
      leftval = PInt 0, leftaxis = PInt 0, rightval = PInt 0, rightaxis = PInt 0,
      upval = PInt 0, upaxis = PInt 0, downval = PInt 0, downaxis = PInt 0\<rparr>"

definition scenario :: "16 word stream \<Rightarrow> 16 word stream \<Rightarrow> bool stream \<Rightarrow> joystick" where
  "scenario c1 c2 pin =
     (unloaded c1 c2 pin)
       \<lparr>middle1 := 32768, middle1_range := [31785, 32768, 33751],
        middle2 := 32768, middle2_range := [31785, 32768, 33751],
        middle := [[31785, 32768, 33751], [31785, 32768, 33751]],
        leftval := PInt 10000, leftaxis := PInt 1,
        rightval := PInt 55000, rightaxis := PInt 1,
        upval := PInt 10000, upaxis := PInt 2,
        downval := PInt 55000, downaxis := PInt 2\<rparr>"

text \<open>
  An instance whose channels deliver 30000 and 35535 for ever, two readings equally
  far from 32767.5, and whose calibration file is \<open>sample_file\<close>.
\<close>

definition tie_instance :: joystick where
  "tie_instance =
     (unloaded (sconst 30000) (sconst 35535) (sconst True))\<lparr>file_text := sample_file\<rparr>"

definition tie_record :: "pyval list" where
  "tie_record =
     [PList [PStr ''MIDDLE'', PInt 1, PInt 30000, PInt 2, PInt 35535],
      PList [PStr ''LEFT'', PInt 2, PInt 35535],
      PList [PStr ''RIGHT'', PInt 2, PInt 35535],
      PList [PStr ''UP'', PInt 2, PInt 35535],
      PList [PStr ''DOWN'', PInt 2, PInt 35535]]"

definition tie_text :: string where
  "tie_text =
     ''[['' @ [CHR 0x27] @ ''MIDDLE'' @ [CHR 0x27] @ '', 1, 30000, 2, 35535], ['' @
     [CHR 0x27] @ ''LEFT'' @ [CHR 0x27] @ '', 2, 35535], ['' @
     [CHR 0x27] @ ''RIGHT'' @ [CHR 0x27] @ '', 2, 35535], ['' @
     [CHR 0x27] @ ''UP'' @ [CHR 0x27] @ '', 2, 35535], ['' @
     [CHR 0x27] @ ''DOWN'' @ [CHR 0x27] @ '', 2, 35535]]''"

section \<open>Evaluation lemmas\<close>

lemma ebind_Inr [simp]: "ebind (Inr x) f = f x"
  by (simp add: ebind_def)

lemma ebind_Inl [simp]: "ebind (Inl e) f = Inl e"
  by (simp add: ebind_def)

lemma py_index_0 [simp]: "py_index (x # xs) 0 = Inr x"
  by (simp add: py_index_def)

lemma py_index_2 [simp]: "py_index (x # y # z # xs) 2 = Inr z"
  by (simp add: py_index_def)


lemma py_round_of_int [simp]: "py_round (of_int n) = n"
  by (simp add: py_round_def)

lemma py_round_unsigned [simp]: "py_round (unsigned w) = uint w"
  using py_round_of_int [of "uint w"] by (simp only: of_int_uint)

lemma mean_of_three: "(of_int (x + (x + x)) :: real) / 3 = of_int x"
  by simp

lemma scenario_axis_reader_1:
  "axis_reader (scenario (sconst w) c2 pin) (PInt 1) = Inr (uint w, scenario (sconst w) c2 pin)"
  by (simp add: axis_reader_def scenario_def unloaded_def read_u16_def numeral_3_eq_3
      mean_of_three del: of_int_add)


lemma scenario_middle:
  "middle (scenario c1 c2 pin) = [[31785, 32768, 33751], [31785, 32768, 33751]]"
  by (simp add: scenario_def)

section \<open>Properties of the converter\<close>

lemma axis_reader_middle:
  "axis_reader self axis = Inr (val, self') \<Longrightarrow> middle self' = middle self"
  by (auto simp: axis_reader_def split: if_splits prod.splits)

text \<open>
  What \<^verbatim>\<open>converter\<close> returns once the oversampled value \<open>raw\<close> and the band
  \<open>[low, c, high]\<close> of the axis are known.
\<close>

lemma converter_unfold:
  assumes "axis_reader self (PInt ax) = Inr (raw, self')"
    and "py_index (middle self) (ax - 1) = Inr [low, c, high]"
  shows "converter self (PInt ax) maxval =
     (if raw > high then
        ebind (ratio_percent (raw - high) maxval high) (\<lambda>percent.
          Inr (py_round (min 100 (max 0 percent)), self'))
      else if raw < low then
        ebind (ratio_percent_low (low - raw) low maxval) (\<lambda>percent.
          Inr (py_round (min 100 (max 0 percent)), self'))
      else Inr (0, self'))"
  using assms axis_reader_middle [OF assms(1)]
  by (simp add: converter_def py_pred_def)

text \<open>
  C9: a raw value equal to the low or to the high bound of the band is inside the
  deadzone: \<^verbatim>\<open>converter\<close> returns 0 and no division is evaluated, whatever the
  calibrated extreme is (also one equal to the bound, or one that is not a number).
\<close>

theorem converter_bounds_inclusive:
  assumes "axis_reader self (PInt ax) = Inr (raw, self')"
    and "py_index (middle self) (ax - 1) = Inr [low, c, high]"
    and "low \<le> high"
    and "raw = low \<or> raw = high"
  shows "converter self (PInt ax) maxval = Inr (0, self')"
  using assms(3,4) by (auto simp: converter_unfold [OF assms(1,2)])

theorem converter_bounds_inclusive_witness:
  "axis_reader (scenario (sconst 31785) (sconst 0) (sconst True)) (PInt 1)
     = Inr (31785, scenario (sconst 31785) (sconst 0) (sconst True))
   \<and> py_index (middle (scenario (sconst 31785) (sconst 0) (sconst True))) (1 - 1)
     = Inr [31785, 32768, 33751]
   \<and> (31785 :: int) \<le> 33751
   \<and> converter (scenario (sconst 31785) (sconst 0) (sconst True)) (PInt 1) (PInt 31785)
     = Inr (0, scenario (sconst 31785) (sconst 0) (sconst True))"
  using converter_bounds_inclusive
    [of "scenario (sconst 31785) (sconst 0) (sconst True)" 1 31785
        "scenario (sconst 31785) (sconst 0) (sconst True)" 31785 32768 33751 "PInt 31785"]
    scenario_axis_reader_1 [of 31785 "sconst 0" "sconst True"]
  by (simp add: scenario_middle)

lemma clamp_min_max: "min 100 (max 0 x) = clamp x 0 100"
  by (simp add: clamp_def min_def max_def)



section \<open>Monotonicity and saturation\<close>

lemma py_round_lower: "\<lfloor>x\<rfloor> \<le> py_round x"
  by (simp add: py_round_def Let_def)

lemma py_round_upper: "py_round x \<le> \<lfloor>x\<rfloor> + 1"
  by (simp add: py_round_def Let_def)

lemma py_round_mono:
  assumes "x \<le> y"
  shows "py_round x \<le> py_round y"
proof (cases "\<lfloor>x\<rfloor> = \<lfloor>y\<rfloor>")
  case True
  with assms show ?thesis
    by (auto simp: py_round_def Let_def)
next
  case False
  with assms have "\<lfloor>x\<rfloor> + 1 \<le> \<lfloor>y\<rfloor>"
    using floor_mono [of x y] by linarith
  with py_round_upper [of x] py_round_lower [of y] show ?thesis
    by linarith
qed

lemma clamp_mono: "x \<le> y \<Longrightarrow> clamp x 0 100 \<le> clamp y 0 100"
  by (auto simp: clamp_def)

lemma percent_mono:
  fixes a b d :: int
  assumes "a \<le> b" and "0 < d"
  shows "py_round (min 100 (max 0 (of_int a / of_int d * 100)))
       \<le> py_round (min 100 (max 0 (of_int b / of_int d * 100)))"
proof -
  have "(of_int a :: real) / of_int d \<le> of_int b / of_int d"
    using assms by (simp add: divide_right_mono)
  then have "(of_int a :: real) / of_int d * 100 \<le> of_int b / of_int d * 100"
    by (rule mult_right_mono) simp
  then show ?thesis
    unfolding clamp_min_max by (intro py_round_mono clamp_mono)
qed

lemma percent_saturated:
  fixes a d :: int
  assumes "d \<le> a" and "0 < d"
  shows "py_round (min 100 (max 0 (of_int a / of_int d * 100))) = 100"
proof -
  define x :: real where "x = of_int a / of_int d * 100"
  have "(1 :: real) \<le> of_int a / of_int d"
    using assms by simp
  then have "100 \<le> x"
    unfolding x_def using mult_right_mono [of 1 "of_int a / of_int d" "100 :: real"] by simp
  then have "min 100 (max 0 x) = of_int 100"
    by simp
  then show ?thesis
    unfolding x_def by (simp only: py_round_of_int)
qed

text \<open>
  C4: take two readings of the same axis, both outside the deadzone, with the
  calibrated extreme \<open>m\<close> strictly beyond the bound on the side of each reading.
  The reading farther from the centre gets the larger (or equal) percentage, and a
  reading that reaches or passes the extreme gets exactly 100.
\<close>

theorem converter_monotone_saturating:
  assumes "axis_reader s1 (PInt ax) = Inr (raw1, s1')"
    and "axis_reader s2 (PInt ax) = Inr (raw2, s2')"
    and "py_index (middle s1) (ax - 1) = Inr [low, c, high]"
    and "py_index (middle s2) (ax - 1) = Inr [low, c, high]"
    and "low \<le> c" and "c \<le> high"
  shows "((raw1 < low \<or> high < raw1) \<and> (raw2 < low \<or> high < raw2)
          \<and> (high < raw1 \<longrightarrow> high < m) \<and> (raw1 < low \<longrightarrow> m < low)
          \<and> (high < raw2 \<longrightarrow> high < m) \<and> (raw2 < low \<longrightarrow> m < low)
          \<and> \<bar>raw1 - c\<bar> \<le> \<bar>raw2 - c\<bar>
          \<longrightarrow> (\<exists>p1 p2. converter s1 (PInt ax) (PInt m) = Inr (p1, s1')
                      \<and> converter s2 (PInt ax) (PInt m) = Inr (p2, s2') \<and> p1 \<le> p2))
       \<and> ((high < m \<and> m \<le> raw1) \<or> (m < low \<and> raw1 \<le> m)
          \<longrightarrow> converter s1 (PInt ax) (PInt m) = Inr (100, s1'))"
proof (intro conjI impI)
  assume h: "(raw1 < low \<or> high < raw1) \<and> (raw2 < low \<or> high < raw2)
          \<and> (high < raw1 \<longrightarrow> high < m) \<and> (raw1 < low \<longrightarrow> m < low)
          \<and> (high < raw2 \<longrightarrow> high < m) \<and> (raw2 < low \<longrightarrow> m < low)
          \<and> \<bar>raw1 - c\<bar> \<le> \<bar>raw2 - c\<bar>"
  consider (above) "high < raw1" "high < raw2" "high < m" "raw1 \<le> raw2"
    | (below) "raw1 < low" "raw2 < low" "m < low" "raw2 \<le> raw1"
    using h assms(5,6) by linarith
  then show "\<exists>p1 p2. converter s1 (PInt ax) (PInt m) = Inr (p1, s1')
                      \<and> converter s2 (PInt ax) (PInt m) = Inr (p2, s2') \<and> p1 \<le> p2"
  proof cases
    case above
    then show ?thesis
      using percent_mono [of "raw1 - high" "raw2 - high" "m - high"]
      by (simp add: converter_unfold [OF assms(1,3)] converter_unfold [OF assms(2,4)]
          ratio_percent_def)
  next
    case below
    then have "\<not> high < raw1" "\<not> high < raw2"
      using assms(5,6) by linarith+
    with below show ?thesis
      using percent_mono [of "low - raw1" "low - raw2" "low - m"]
      by (simp add: converter_unfold [OF assms(1,3)] converter_unfold [OF assms(2,4)]
          ratio_percent_low_def)
  qed
next
  assume "(high < m \<and> m \<le> raw1) \<or> (m < low \<and> raw1 \<le> m)"
  then consider (above) "high < m" "m \<le> raw1" | (below) "m < low" "raw1 \<le> m"
    by blast
  then show "converter s1 (PInt ax) (PInt m) = Inr (100, s1')"
  proof cases
    case above
    then show ?thesis
      using percent_saturated [of "m - high" "raw1 - high"]
      by (simp add: converter_unfold [OF assms(1,3)] ratio_percent_def)
  next
    case below
    then have "\<not> high < raw1" "raw1 < low"
      using assms(5,6) by linarith+
    with below show ?thesis
      using percent_saturated [of "low - m" "low - raw1"]
      by (simp add: converter_unfold [OF assms(1,3)] ratio_percent_low_def)
  qed
qed

theorem converter_monotone_saturating_witness:
  "(\<exists>p1 p2.
      converter (scenario (sconst 40000) (sconst 0) (sconst True)) (PInt 1) (PInt 55000)
        = Inr (p1, scenario (sconst 40000) (sconst 0) (sconst True))
    \<and> converter (scenario (sconst 50000) (sconst 0) (sconst True)) (PInt 1) (PInt 55000)
        = Inr (p2, scenario (sconst 50000) (sconst 0) (sconst True))
    \<and> p1 \<le> p2)
   \<and> converter (scenario (sconst 60000) (sconst 0) (sconst True)) (PInt 1) (PInt 55000)
        = Inr (100, scenario (sconst 60000) (sconst 0) (sconst True))"
  using
    converter_monotone_saturating
      [of "scenario (sconst 40000) (sconst 0) (sconst True)" 1 40000
          "scenario (sconst 40000) (sconst 0) (sconst True)"
          "scenario (sconst 50000) (sconst 0) (sconst True)" 50000
          "scenario (sconst 50000) (sconst 0) (sconst True)" 31785 32768 33751 55000]
    converter_monotone_saturating
      [of "scenario (sconst 60000) (sconst 0) (sconst True)" 1 60000
          "scenario (sconst 60000) (sconst 0) (sconst True)"
          "scenario (sconst 50000) (sconst 0) (sconst True)" 50000
          "scenario (sconst 50000) (sconst 0) (sconst True)" 31785 32768 33751 55000]
    scenario_axis_reader_1 [of 40000 "sconst 0" "sconst True"]
    scenario_axis_reader_1 [of 50000 "sconst 0" "sconst True"]
    scenario_axis_reader_1 [of 60000 "sconst 0" "sconst True"]
  by (simp add: scenario_middle)

section \<open>The deadzone band\<close>

lemma ebind_eq_Inr: "ebind m f = Inr y \<longleftrightarrow> (\<exists>x. m = Inr x \<and> f x = Inr y)"
  by (cases m) simp_all

lemma as_number_eq_Inr: "as_number v = Inr c \<longleftrightarrow> v = PInt c"
  by (cases v) (simp_all add: as_number_def)

text \<open>A number of hundredths is unchanged by rounding to two decimal places.\<close>

lemma py_round_ndigits_hundredths: "py_round_ndigits (of_int k / 100) 2 = of_int k / 100"
  by (simp add: py_round_ndigits_def)

lemma p_under_eq:
  "py_round_ndigits (of_int (100 - d) / 100) 2 = 1 - of_int d / 100"
  unfolding py_round_ndigits_hundredths by (simp add: diff_divide_distrib)

lemma p_over_eq:
  "py_round_ndigits (of_int (100 + d) / 100) 2 = 1 + of_int d / 100"
  unfolding py_round_ndigits_hundredths by (simp add: add_divide_distrib)



lemma load_calib_middle:
  assumes "load_calib self data = Inr self'"
    and "getitem2 data 0 2 = Inr (PInt c1)" and "getitem2 data 0 4 = Inr (PInt c2)"
  shows "middle self' =
     [[py_round (of_int c1 * (1 - of_int (deadzone self) / 100)), c1,
       py_round (of_int c1 * (1 + of_int (deadzone self) / 100))],
      [py_round (of_int c2 * (1 - of_int (deadzone self) / 100)), c2,
       py_round (of_int c2 * (1 + of_int (deadzone self) / 100))]]"
  using assms
  unfolding load_calib_def Let_def ebind_eq_Inr as_number_eq_Inr p_under_eq p_over_eq
  by auto

lemma band_around_centre:
  fixes c d :: int
  assumes "0 \<le> c" and "0 \<le> d"
  shows "py_round (of_int c * (1 - of_int d / 100)) \<le> c"
    and "c \<le> py_round (of_int c * (1 + of_int d / 100))"
proof -
  have "(of_int c :: real) * (1 - of_int d / 100) \<le> of_int c * 1"
    using assms by (intro mult_left_mono) simp_all
  from py_round_mono [OF this] show "py_round (of_int c * (1 - of_int d / 100)) \<le> c"
    by simp
  have "(of_int c :: real) * 1 \<le> of_int c * (1 + of_int d / 100)"
    using assms by (intro mult_left_mono) simp_all
  from py_round_mono [OF this] show "c \<le> py_round (of_int c * (1 + of_int d / 100))"
    by simp
qed

text \<open>
  The bands that \<^verbatim>\<open>load_calib\<close> derives from raw centres and a deadzone that are
  not negative are ordered: low \<open>\<le>\<close> centre \<open>\<le>\<close> high.
\<close>

lemma load_calib_band_ordered:
  assumes "load_calib self data = Inr self'"
    and "getitem2 data 0 2 = Inr (PInt c1)" and "getitem2 data 0 4 = Inr (PInt c2)"
    and "0 \<le> c1" and "0 \<le> c2" and "0 \<le> deadzone self"
  shows "\<exists>l1 h1 l2 h2. middle self' = [[l1, c1, h1], [l2, c2, h2]]
            \<and> l1 \<le> c1 \<and> c1 \<le> h1 \<and> l2 \<le> c2 \<and> c2 \<le> h2"
  unfolding load_calib_middle [OF assms(1-3)]
  using band_around_centre [OF assms(4,6)] band_around_centre [OF assms(5,6)]
  by simp

section \<open>The dominant direction\<close>













section \<open>The dominant direction at a tie\<close>









section \<open>Button priority\<close>

text \<open>
  C5: \<^verbatim>\<open>button\<close> reads the pin once and reports pressed exactly for the low
  level. When it reports pressed, \<^verbatim>\<open>get\<close> returns the string \<^verbatim>\<open>"button"\<close> for
  either value of \<^verbatim>\<open>as_bool\<close>, without reading an axis; when it does not,
  \<^verbatim>\<open>get\<close> returns what \<^verbatim>\<open>max_direction(as_bool)\<close> returns on the instance after
  the pin read.
\<close>

theorem get_button_priority:
  assumes "button self = (pressed, self')"
  shows "pressed = (\<not> shd (btn self))
    \<and> self' = self\<lparr>btn := stl (btn self)\<rparr>
    \<and> (pressed \<longrightarrow> get self as_bool = Inr (RStr ''button'', self'))
    \<and> (\<not> pressed \<longrightarrow> get self as_bool = max_direction self' as_bool)"
  using assms by (auto simp: get_def button_def pin_value_def)

theorem get_button_priority_witness:
  "get (scenario (sconst 60000) (sconst 5000) (sconst False)) False
     = Inr (RStr ''button'', scenario (sconst 60000) (sconst 5000) (sconst False))
   \<and> get (scenario (sconst 60000) (sconst 5000) (sconst True)) True
     = max_direction (scenario (sconst 60000) (sconst 5000) (sconst True)) True"
  using
    get_button_priority
      [of "scenario (sconst 60000) (sconst 5000) (sconst False)" True
          "scenario (sconst 60000) (sconst 5000) (sconst False)" False]
    get_button_priority
      [of "scenario (sconst 60000) (sconst 5000) (sconst True)" False
          "scenario (sconst 60000) (sconst 5000) (sconst True)" True]
  by (simp add: button_def pin_value_def scenario_def unloaded_def)

section \<open>Calibration\<close>

lemma calibrate_poses_five:
  "cal_data (calibrate_poses [d0, d1, d2, d3, d4] [] self) =
     PList [pose_entry d0 (uint (a1 self !! 0)) (uint (a2 self !! 0)),
            pose_entry d1 (uint (a1 self !! 1)) (uint (a2 self !! 1)),
            pose_entry d2 (uint (a1 self !! 2)) (uint (a2 self !! 2)),
            pose_entry d3 (uint (a1 self !! 3)) (uint (a2 self !! 3)),
            pose_entry d4 (uint (a1 self !! 4)) (uint (a2 self !! 4))]"
  by (simp add: read_u16_def numeral_eq_Suc)

lemma calibrate_cal_data:
  "cal_data (calibrate self) =
     cal_data (calibrate_poses [''MIDDLE'', ''LEFT'', ''RIGHT'', ''UP'', ''DOWN''] [] self)"
  by (simp add: calibrate_def Let_def split: sum.splits)

lemma calibrate_entries:
  "cal_data (calibrate self) =
     PList [pose_entry ''MIDDLE'' (uint (a1 self !! 0)) (uint (a2 self !! 0)),
            pose_entry ''LEFT'' (uint (a1 self !! 1)) (uint (a2 self !! 1)),
            pose_entry ''RIGHT'' (uint (a1 self !! 2)) (uint (a2 self !! 2)),
            pose_entry ''UP'' (uint (a1 self !! 3)) (uint (a2 self !! 3)),
            pose_entry ''DOWN'' (uint (a1 self !! 4)) (uint (a2 self !! 4))]"
  unfolding calibrate_cal_data by (rule calibrate_poses_five)

lemma calibrate_getitem:
  assumes "i \<in> {1, 2, 3, 4}"
  shows "py_getitem (cal_data (calibrate self)) (int i) =
     Inr (pose_entry ([''MIDDLE'', ''LEFT'', ''RIGHT'', ''UP'', ''DOWN''] ! i)
            (uint (a1 self !! i)) (uint (a2 self !! i)))"
  using assms unfolding calibrate_entries
  by (auto simp: py_getitem_def py_index_def)

lemma pose_entry_directional:
  assumes "direction \<noteq> ''MIDDLE''"
  shows "pose_entry direction aval1 aval2 =
     (if \<bar>32767.5 - of_int aval1 :: real\<bar> > \<bar>32767.5 - of_int aval2\<bar>
      then PList [PStr direction, PInt 1, PInt aval1]
      else PList [PStr direction, PInt 2, PInt aval2])"
  using assms by (simp add: pose_entry_def Let_def)

lemma pose_name_directional:
  assumes "i \<in> {1, 2, 3, 4 :: nat}"
  shows "[''MIDDLE'', ''LEFT'', ''RIGHT'', ''UP'', ''DOWN''] ! i \<noteq> ''MIDDLE''"
  using assms by auto

text \<open>
  C6: for each of the four poses after MIDDLE, the entry that \<^verbatim>\<open>calibrate\<close> stores
  is decided by the distances of the pose's own two readings from the fixed value
  32767.5; no MIDDLE reading occurs in it. The axis with the strictly larger
  distance is stored as the dominant axis, together with its raw reading.
\<close>

theorem calibrate_dominant_axis:
  assumes "i \<in> {1, 2, 3, 4}"
  shows "(\<bar>32767.5 - of_int (uint (a1 self !! i)) :: real\<bar>
            > \<bar>32767.5 - of_int (uint (a2 self !! i))\<bar> \<longrightarrow>
          py_getitem (cal_data (calibrate self)) (int i) =
            Inr (PList [PStr ([''MIDDLE'', ''LEFT'', ''RIGHT'', ''UP'', ''DOWN''] ! i),
                        PInt 1, PInt (uint (a1 self !! i))]))
       \<and> (\<bar>32767.5 - of_int (uint (a2 self !! i)) :: real\<bar>
            > \<bar>32767.5 - of_int (uint (a1 self !! i))\<bar> \<longrightarrow>
          py_getitem (cal_data (calibrate self)) (int i) =
            Inr (PList [PStr ([''MIDDLE'', ''LEFT'', ''RIGHT'', ''UP'', ''DOWN''] ! i),
                        PInt 2, PInt (uint (a2 self !! i))]))"
  unfolding calibrate_getitem [OF assms]
    pose_entry_directional [OF pose_name_directional [OF assms]]
  by simp

text \<open>
  C10: when the two readings of a pose after MIDDLE are equally far from 32767.5,
  the entry names axis 2 and holds the raw reading of axis 2.
\<close>

theorem calibrate_tie_axis_2:
  assumes "i \<in> {1, 2, 3, 4}"
    and "\<bar>32767.5 - of_int (uint (a1 self !! i)) :: real\<bar>
           = \<bar>32767.5 - of_int (uint (a2 self !! i))\<bar>"
  shows "py_getitem (cal_data (calibrate self)) (int i) =
            Inr (PList [PStr ([''MIDDLE'', ''LEFT'', ''RIGHT'', ''UP'', ''DOWN''] ! i),
                        PInt 2, PInt (uint (a2 self !! i))])"
  unfolding calibrate_getitem [OF assms(1)]
    pose_entry_directional [OF pose_name_directional [OF assms(1)]]
  using assms(2) by simp

lemma snth_one: "s !! 1 = shd (stl s)"
  unfolding One_nat_def by simp

lemma snth_numeral: "s !! numeral k = stl s !! pred_numeral k"
  by (simp add: numeral_eq_Suc)

theorem calibrate_dominant_axis_witness:
  "py_getitem
     (cal_data (calibrate (unloaded (31000 ## 30000 ## sconst 60000)
                                    (35500 ## 36000 ## sconst 33000) (sconst True)))) 1
     = Inr (PList [PStr ''LEFT'', PInt 2, PInt 36000])
   \<and> py_getitem
     (cal_data (calibrate (unloaded (31000 ## 30000 ## sconst 60000)
                                    (35500 ## 36000 ## sconst 33000) (sconst True)))) 2
     = Inr (PList [PStr ''RIGHT'', PInt 1, PInt 60000])"
  using
    calibrate_dominant_axis
      [of 1 "unloaded (31000 ## 30000 ## sconst 60000)
                      (35500 ## 36000 ## sconst 33000) (sconst True)"]
    calibrate_dominant_axis
      [of 2 "unloaded (31000 ## 30000 ## sconst 60000)
                      (35500 ## 36000 ## sconst 33000) (sconst True)"]
  by (simp add: unloaded_def snth_one snth_numeral)

theorem calibrate_tie_axis_2_witness:
  "py_getitem
     (cal_data (calibrate (unloaded (sconst 30000) (sconst 35535) (sconst True)))) 1
     = Inr (PList [PStr ''LEFT'', PInt 2, PInt 35535])"
  using
    calibrate_tie_axis_2
      [of 1 "unloaded (sconst 30000) (sconst 35535) (sconst True)"]
  by (simp add: unloaded_def snth_one snth_numeral)

section \<open>Lines of a text\<close>

lemma complete_line_iff:
  "complete_line l \<longleftrightarrow> (\<exists>t. l = t @ [CHR 0x0A] \<and> CHR 0x0A \<notin> set t)"
proof
  assume "complete_line l"
  then have "l = butlast l @ [CHR 0x0A]" and "CHR 0x0A \<notin> set (butlast l)"
    using append_butlast_last_id [of l] by (simp_all add: complete_line_def)
  then show "\<exists>t. l = t @ [CHR 0x0A] \<and> CHR 0x0A \<notin> set t"
    by blast
next
  assume "\<exists>t. l = t @ [CHR 0x0A] \<and> CHR 0x0A \<notin> set t"
  then show "complete_line l"
    by (auto simp: complete_line_def)
qed

lemma readlines_complete:
  assumes "CHR 0x0A \<notin> set t"
  shows "readlines (t @ CHR 0x0A # rest) = (t @ [CHR 0x0A]) # readlines rest"
  using assms by (induction t) auto

lemma concat_readlines: "concat (readlines s) = s"
  by (induction s) (auto split: list.splits)

lemma readlines_Cons:
  assumes "readlines s = l # ls"
  shows "\<exists>s'. s = l @ s' \<and> readlines s' = ls \<and> (ls \<noteq> [] \<longrightarrow> complete_line l)"
  using assms
proof (induction s arbitrary: l ls)
  case Nil
  then show ?case by simp
next
  case (Cons c cs)
  show ?case
  proof (cases "c = CHR 0x0A")
    case True
    with Cons.prems have "l = [c]" "ls = readlines cs"
      by simp_all
    with True show ?thesis
      by (auto simp: complete_line_iff)
  next
    case False
    show ?thesis
    proof (cases "readlines cs")
      case Nil
      with False Cons.prems have "l = [c]" "ls = []"
        by simp_all
      moreover from Nil have "cs = []"
        using concat_readlines [of cs] by simp
      ultimately show ?thesis
        by simp
    next
      case (Cons l' ls')
      with False Cons.prems have l: "l = c # l'" and ls: "ls = ls'"
        by simp_all
      from Cons.IH [OF Cons] obtain s' where
        s': "cs = l' @ s'" "readlines s' = ls'" "ls' \<noteq> [] \<longrightarrow> complete_line l'"
        by blast
      have "ls \<noteq> [] \<longrightarrow> complete_line l"
      proof
        assume "ls \<noteq> []"
        with s'(3) ls obtain t where "l' = t @ [CHR 0x0A]" "CHR 0x0A \<notin> set t"
          by (auto simp: complete_line_iff)
        with False l show "complete_line l"
          unfolding complete_line_iff by (intro exI [of _ "c # t"]) simp
      qed
      with s' l ls show ?thesis
        by simp
    qed
  qed
qed

text \<open>Replacing the second line by a complete line and writing the lines back.\<close>

lemma readlines_replace_second:
  assumes "2 \<le> length (readlines s)" and "CHR 0x0A \<notin> set t"
  shows "readlines (concat ((readlines s)[1 := t @ [CHR 0x0A]]))
       = (readlines s)[1 := t @ [CHR 0x0A]]"
proof -
  from assms(1) obtain l0 l1 rest where ls: "readlines s = l0 # l1 # rest"
    by (cases "readlines s"; cases "tl (readlines s)") auto
  from readlines_Cons [OF ls] obtain s1 where
    s1: "readlines s1 = l1 # rest" and c0: "complete_line l0"
    by auto
  from readlines_Cons [OF s1] obtain s2 where s2: "readlines s2 = rest"
    by auto
  from c0 obtain t0 where t0: "l0 = t0 @ [CHR 0x0A]" "CHR 0x0A \<notin> set t0"
    by (auto simp: complete_line_iff)
  have "concat rest = s2"
    using concat_readlines [of s2] s2 by simp
  then have "concat ((readlines s)[1 := t @ [CHR 0x0A]])
      = t0 @ CHR 0x0A # (t @ CHR 0x0A # s2)"
    by (simp add: ls t0)
  then show ?thesis
    by (simp add: readlines_complete [OF t0(2)] readlines_complete [OF assms(2)] s2 ls t0)
qed




section \<open>No newline in a representation\<close>

lemma char_of_nat_neq:
  fixes n :: nat
  assumes "n < 256" and "of_char c \<noteq> n"
  shows "c \<noteq> char_of n"
proof
  assume "c = char_of n"
  then have "(of_char c :: nat) = of_char (char_of n :: char)"
    by simp
  with assms show False
    by simp
qed

lemma digit_char_not_newline: "d < 10 \<Longrightarrow> CHR 0x0A \<noteq> digit_char d"
  unfolding digit_char_def by (rule char_of_nat_neq) simp_all

lemma digits_of_no_newline: "CHR 0x0A \<notin> set (digits_of n)"
proof (induction n rule: digits_of.induct)
  case (1 n)
  show ?case
  proof (cases "n < 10")
    case True
    then show ?thesis
      by (subst digits_of.simps) (simp add: digit_char_not_newline)
  next
    case False
    with "1.IH" have "CHR 0x0A \<notin> set (digits_of (n div 10))"
      by simp
    with False show ?thesis
      by (subst digits_of.simps) (simp add: digit_char_not_newline)
  qed
qed

lemma repr_int_no_newline: "CHR 0x0A \<notin> set (repr_int i)"
  by (simp add: repr_int_def digits_of_no_newline)

lemma hex_char_not_newline:
  assumes "d < 16"
  shows "CHR 0x0A \<noteq> hex_char d"
proof (cases "d < 10")
  case True
  have "CHR 0x0A \<noteq> char_of (48 + d)"
    by (rule char_of_nat_neq) (use True in simp_all)
  with True show ?thesis
    by (simp add: hex_char_def)
next
  case False
  have "CHR 0x0A \<noteq> char_of (87 + d)"
    by (rule char_of_nat_neq) (use assms in simp_all)
  with False show ?thesis
    by (simp add: hex_char_def)
qed



lemma repr_char_no_newline:
  assumes "q \<noteq> CHR 0x0A"
  shows "CHR 0x0A \<notin> set (repr_char q c)"
proof (cases "c = CHR 0x0A")
  case True
  with assms show ?thesis
    by (simp add: repr_char_def)
next
  case False
  have "(of_char c :: nat) div 16 < 16"
    by (rule less_mult_imp_div_less) simp
  then have "CHR 0x0A \<noteq> hex_char (of_char c div 16)"
    by (rule hex_char_not_newline)
  moreover have "CHR 0x0A \<noteq> hex_char (of_char c mod 16)"
    by (rule hex_char_not_newline) simp
  moreover have "CHR 0x0A \<noteq> c"
    using False by simp
  ultimately show ?thesis
    unfolding repr_char_def by simp
qed

lemma repr_str_no_newline: "CHR 0x0A \<notin> set (repr_str s)"
  by (auto simp: repr_str_def Let_def repr_char_no_newline)

lemma py_repr_no_newline:
  "CHR 0x0A \<notin> set (py_repr v)" "CHR 0x0A \<notin> set (repr_items vs)"
  by (induction v and vs rule: py_repr_repr_items.induct)
    (simp_all add: repr_int_no_newline repr_str_no_newline)

section \<open>The file after calibration\<close>

lemma calibrate_poses_file:
  "file_text (calibrate_poses ds acc self) = file_text self
   \<and> file_writable (calibrate_poses ds acc self) = file_writable self"
  by (induction ds arbitrary: acc self) (simp_all add: read_u16_def)

lemma calibrate_cal_data_list: "\<exists>xs. cal_data (calibrate self) = PList xs"
  unfolding calibrate_entries by blast

lemma calibrate_lines:
  assumes "file_writable self" and "2 \<le> length (readlines (file_text self))"
  shows "readlines (file_text (calibrate self)) =
           (readlines (file_text self))[1 := py_repr (cal_data (calibrate self)) @ [CHR 0x0A]]
       \<and> py_str (cal_data (calibrate self)) = py_repr (cal_data (calibrate self))"
proof -
  define self' where
    "self' = calibrate_poses [''MIDDLE'', ''LEFT'', ''RIGHT'', ''UP'', ''DOWN''] [] self"
  let ?old = "readlines (file_text self)"
  have ft: "file_text self' = file_text self" and fw: "file_writable self'"
    unfolding self'_def using assms(1) by (simp_all only: calibrate_poses_file)
  have set: "py_setitem ?old 1 v = Inr (?old[1 := v])" for v
    using assms(2) by (simp add: py_setitem_def)
  have "calibrate self =
      (case py_setitem (readlines (file_text self')) 1 (py_str (cal_data self') @ [CHR 0x0A]) of
         Inl e \<Rightarrow> self'
       | Inr lines' \<Rightarrow>
           if file_writable self' then self'\<lparr>file_text := concat lines'\<rparr> else self')"
    by (simp only: calibrate_def Let_def self'_def)
  then have cal: "calibrate self =
      self'\<lparr>file_text := concat (?old[1 := py_str (cal_data self') @ [CHR 0x0A]])\<rparr>"
    by (simp add: ft fw set)
  then have cd: "cal_data self' = cal_data (calibrate self)"
    by simp
  obtain xs where xs: "cal_data (calibrate self) = PList xs"
    using calibrate_cal_data_list by blast
  then have str: "py_str (cal_data (calibrate self)) = py_repr (cal_data (calibrate self))"
    by (simp add: py_str_def)
  have nl: "CHR 0x0A \<notin> set (py_str (cal_data (calibrate self)))"
    unfolding str by (rule py_repr_no_newline)
  have "file_text (calibrate self) =
      concat (?old[1 := py_str (cal_data (calibrate self)) @ [CHR 0x0A]])"
    unfolding cd [symmetric] by (subst cal) simp
  then have main: "readlines (file_text (calibrate self)) =
      ?old[1 := py_str (cal_data (calibrate self)) @ [CHR 0x0A]]"
    using readlines_replace_second [OF assms(2) nl] by simp
  show ?thesis
    unfolding main by (simp add: str)
qed

text \<open>
  C8: when the file has at least two lines and can be written, \<^verbatim>\<open>calibrate\<close>
  leaves a file whose lines are the old lines with line 2 replaced by the text of
  the new record and a newline: the number of lines is the same and every line
  other than line 2 is the same.
\<close>

theorem calibrate_rewrites_line_2:
  assumes "file_writable self" and "2 \<le> length (readlines (file_text self))"
  shows "readlines (file_text (calibrate self)) =
           (readlines (file_text self))[1 := py_str (cal_data (calibrate self)) @ [CHR 0x0A]]
       \<and> length (readlines (file_text (calibrate self))) = length (readlines (file_text self))
       \<and> readlines (file_text (calibrate self)) ! 1 = py_str (cal_data (calibrate self)) @ [CHR 0x0A]
       \<and> (\<forall>i < length (readlines (file_text self)). i \<noteq> 1 \<longrightarrow>
            readlines (file_text (calibrate self)) ! i = readlines (file_text self) ! i)"
  using calibrate_lines [OF assms] assms(2) by simp

section \<open>Integers read back\<close>

lemma of_char_digit_char: "d < 10 \<Longrightarrow> (of_char (digit_char d) :: nat) = 48 + d"
  by (simp add: digit_char_def)

lemma is_digit_digit_char: "d < 10 \<Longrightarrow> is_digit (digit_char d)"
  by (simp add: is_digit_def of_char_digit_char)

lemma digit_val_digit_char: "d < 10 \<Longrightarrow> digit_val (digit_char d) = d"
  by (simp add: digit_val_def of_char_digit_char)

lemma digit_char_zero: "d < 10 \<Longrightarrow> digit_char d = CHR ''0'' \<longleftrightarrow> d = 0"
proof
  assume d: "d < 10" and "digit_char d = CHR ''0''"
  then have "(of_char (digit_char d) :: nat) = of_char (CHR ''0'')"
    by simp
  with d show "d = 0"
    by (simp add: of_char_digit_char)
next
  assume "d = 0"
  moreover have "char_of (48 :: nat) = CHR ''0''"
    by (rule of_char_eqI [where ?'a = nat]) simp
  ultimately show "digit_char d = CHR ''0''"
    by (simp add: digit_char_def)
qed

lemma digits_of_small: "n < 10 \<Longrightarrow> digits_of n = [digit_char n]"
  by (subst digits_of.simps) simp

lemma digits_of_large:
  "\<not> n < 10 \<Longrightarrow> digits_of n = digits_of (n div 10) @ [digit_char (n mod 10)]"
  by (subst digits_of.simps) simp

lemma digits_of_nonempty: "digits_of n \<noteq> []"
  by (cases "n < 10") (simp_all add: digits_of_small digits_of_large)

lemma digits_of_all_digits: "\<forall>c \<in> set (digits_of n). is_digit c"
proof (induction n rule: digits_of.induct)
  case (1 n)
  then show ?case
    by (cases "n < 10") (simp_all add: digits_of_small digits_of_large is_digit_digit_char)
qed

lemma digits_value_snoc: "digits_value (ds @ [c]) = 10 * digits_value ds + digit_val c"
  by (simp add: digits_value_def)

lemma digits_value_digits_of: "digits_value (digits_of n) = n"
proof (induction n rule: digits_of.induct)
  case (1 n)
  show ?case
  proof (cases "n < 10")
    case True
    then show ?thesis
      by (simp add: digits_of_small digits_value_def digit_val_digit_char)
  next
    case False
    with "1.IH" show ?thesis
      by (simp add: digits_of_large digits_value_snoc digit_val_digit_char)
  qed
qed

lemma digits_of_no_leading_zero: "1 < length (digits_of n) \<Longrightarrow> hd (digits_of n) \<noteq> CHR ''0''"
proof (induction n rule: digits_of.induct)
  case (1 n)
  show ?case
  proof (cases "n < 10")
    case True
    with "1.prems" show ?thesis
      by (simp add: digits_of_small)
  next
    case False
    show ?thesis
    proof (cases "n div 10 < 10")
      case True
      moreover from False have "n div 10 \<noteq> 0"
        by simp
      ultimately show ?thesis
        using False by (simp add: digits_of_large digits_of_small digit_char_zero)
    next
      case small: False
      then have "1 < length (digits_of (n div 10))"
        by (simp add: digits_of_large [of "n div 10"] digits_of_nonempty Suc_lessI)
      with "1.IH" False have "hd (digits_of (n div 10)) \<noteq> CHR ''0''"
        by simp
      with False show ?thesis
        by (simp add: digits_of_large [of n] digits_of_nonempty)
    qed
  qed
qed

lemma takeWhile_run:
  assumes "\<forall>x \<in> set xs. P x" and "ys = [] \<or> \<not> P (hd ys)"
  shows "takeWhile P (xs @ ys) = xs" and "dropWhile P (xs @ ys) = ys"
proof -
  have "takeWhile P ys = []" and "dropWhile P ys = ys"
    using assms(2) by (cases ys; simp)+
  with assms(1) show "takeWhile P (xs @ ys) = xs" and "dropWhile P (xs @ ys) = ys"
    by (simp_all add: takeWhile_append2 dropWhile_append2)
qed

lemma parse_nat_digits_of:
  assumes "rest = [] \<or> \<not> is_digit (hd rest)"
  shows "parse_nat (digits_of n @ rest) = Some (n, rest)"
proof -
  have "\<not> (1 < length (digits_of n) \<and> hd (digits_of n) = CHR ''0''
          \<and> (\<exists>c \<in> set (digits_of n). c \<noteq> CHR ''0''))"
    using digits_of_no_leading_zero [of n] by blast
  then show ?thesis
    unfolding parse_nat_def Let_def takeWhile_run [OF digits_of_all_digits assms]
    by (simp add: digits_of_nonempty digits_value_digits_of)
qed

section \<open>Strings read back\<close>

lemma of_char_hex_char:
  "d < 16 \<Longrightarrow> (of_char (hex_char d) :: nat) = (if d < 10 then 48 + d else 87 + d)"
  by (simp add: hex_char_def)

lemma hex_val_hex_char: "d < 16 \<Longrightarrow> hex_val (hex_char d) = Some d"
  by (simp add: hex_val_def Let_def of_char_hex_char)

lemma hex_decode:
  "hex_val (hex_char (of_char c div 16)) = Some (of_char c div 16)"
  "hex_val (hex_char (of_char c mod 16)) = Some (of_char c mod 16)"
  "char_of (16 * ((of_char c :: nat) div 16) + of_char c mod 16) = c"
proof -
  have "(of_char c :: nat) div 16 < 16"
    by (rule less_mult_imp_div_less) simp
  then show "hex_val (hex_char (of_char c div 16)) = Some (of_char c div 16)"
    by (rule hex_val_hex_char)
  show "hex_val (hex_char (of_char c mod 16)) = Some (of_char c mod 16)"
    by (rule hex_val_hex_char) simp
  show "char_of (16 * ((of_char c :: nat) div 16) + of_char c mod 16) = c"
    by simp
qed

lemma parse_string_body_raw:
  assumes "c \<noteq> q" and "c \<noteq> CHR 0x0A" and "c \<noteq> CHR 0x5C"
  shows "parse_string_body q (c # tail) =
           map_option (\<lambda>(t, r). (c # t, r)) (parse_string_body q tail)"
  using assms by (cases tail) simp_all

lemma parse_repr_char:
  assumes "q = CHR 0x27 \<or> q = CHR 0x22"
  shows "parse_string_body q (repr_char q c @ tail) =
           map_option (\<lambda>(t, r). (c # t, r)) (parse_string_body q tail)"
proof -
  have q: "q \<noteq> CHR 0x5C" "q \<noteq> CHR 0x0A" "q \<noteq> CHR 0x09" "q \<noteq> CHR 0x0D"
    using assms by auto
  consider (quoted) "c = q \<or> c = CHR 0x5C"
    | (tab) "c = CHR 0x09"
    | (newline) "c = CHR 0x0A"
    | (return) "c = CHR 0x0D"
    | (hex) "c \<noteq> q" "c \<noteq> CHR 0x5C" "c \<noteq> CHR 0x09" "c \<noteq> CHR 0x0A" "c \<noteq> CHR 0x0D"
        "(of_char c :: nat) < 32 \<or> 127 \<le> (of_char c :: nat)"
    | (plain) "c \<noteq> q" "c \<noteq> CHR 0x5C" "c \<noteq> CHR 0x09" "c \<noteq> CHR 0x0A" "c \<noteq> CHR 0x0D"
        "\<not> ((of_char c :: nat) < 32 \<or> 127 \<le> (of_char c :: nat))"
    by blast
  then show ?thesis
  proof cases
    case quoted
    then have "repr_char q c = [CHR 0x5C, c]"
      by (simp add: repr_char_def)
    with quoted assms q show ?thesis
      by auto
  next
    case tab
    with q have "repr_char q c = [CHR 0x5C, CHR ''t'']"
      by (simp add: repr_char_def)
    with tab q show ?thesis
      by simp
  next
    case newline
    with q have "repr_char q c = [CHR 0x5C, CHR ''n'']"
      by (simp add: repr_char_def)
    with newline q show ?thesis
      by simp
  next
    case return
    with q have "repr_char q c = [CHR 0x5C, CHR ''r'']"
      by (simp add: repr_char_def)
    with return q show ?thesis
      by simp
  next
    case hex
    then have "repr_char q c =
        [CHR 0x5C, CHR ''x'', hex_char (of_char c div 16), hex_char (of_char c mod 16)]"
      by (simp add: repr_char_def)
    with q show ?thesis
      by (simp add: hex_decode)
  next
    case plain
    then have "repr_char q c = [c]"
      by (simp add: repr_char_def)
    with plain show ?thesis
      by (simp add: parse_string_body_raw)
  qed
qed

lemma parse_string_body_close: "parse_string_body q (q # rest) = Some ([], rest)"
  by (cases rest) simp_all

lemma parse_string_body_repr:
  assumes "q = CHR 0x27 \<or> q = CHR 0x22"
  shows "parse_string_body q (concat (map (repr_char q) s) @ q # rest) = Some (s, rest)"
  by (induction s) (simp_all add: parse_string_body_close parse_repr_char [OF assms])

lemma repr_str_shape:
  "\<exists>q. (q = CHR 0x27 \<or> q = CHR 0x22) \<and> repr_str s = q # concat (map (repr_char q) s) @ [q]"
  by (simp add: repr_str_def Let_def)

section \<open>Values read back\<close>

lemma skip_spaces_Cons: "c \<noteq> CHR 0x20 \<Longrightarrow> skip_spaces (c # cs) = c # cs"
  by (simp add: skip_spaces_def)

lemma skip_spaces_space: "skip_spaces (CHR 0x20 # cs) = skip_spaces cs"
  by (simp add: skip_spaces_def)

lemma is_digit_not_special:
  assumes "is_digit c"
  shows "c \<noteq> CHR 0x20" "c \<noteq> CHR ''[''" "c \<noteq> CHR '']''" "c \<noteq> CHR 0x27" "c \<noteq> CHR 0x22"
    "c \<noteq> CHR ''-''" "c \<noteq> CHR '',''"
  using assms by (auto simp: is_digit_def)

lemma parse_value_digit:
  assumes "is_digit c"
  shows "parse_value (Suc n) (c # cs) =
           map_option (\<lambda>(k, r). (PInt (int k), r)) (parse_nat (c # cs))"
  using is_digit_not_special [OF assms] by (simp add: parse_value.simps skip_spaces_Cons)

lemma parse_value_minus:
  "parse_value (Suc n) (CHR ''-'' # cs) =
     map_option (\<lambda>(k, r). (PInt (- int k), r)) (parse_nat cs)"
  by (simp add: parse_value.simps skip_spaces_Cons)

lemma digits_of_Cons: "\<exists>c cs. digits_of n = c # cs \<and> is_digit c"
  using digits_of_nonempty [of n] digits_of_all_digits [of n]
  by (cases "digits_of n") auto

lemma parse_value_repr_int:
  assumes "rest = [] \<or> \<not> is_digit (hd rest)"
  shows "parse_value (Suc n) (repr_int i @ rest) = Some (PInt i, rest)"
proof (cases "i < 0")
  case True
  then show ?thesis
    by (simp add: repr_int_def parse_value_minus parse_nat_digits_of [OF assms])
next
  case False
  obtain c cs where d: "digits_of (nat i) = c # cs" "is_digit c"
    using digits_of_Cons by blast
  have "parse_value (Suc n) (digits_of (nat i) @ rest) =
      map_option (\<lambda>(k, r). (PInt (int k), r)) (parse_nat (digits_of (nat i) @ rest))"
    unfolding d(1) using parse_value_digit [OF d(2)] by simp
  with False show ?thesis
    by (simp add: repr_int_def parse_nat_digits_of [OF assms])
qed

lemma parse_value_repr_str:
  "parse_value (Suc n) (repr_str s @ rest) = Some (PStr s, rest)"
proof -
  obtain q where q: "q = CHR 0x27 \<or> q = CHR 0x22"
    and r: "repr_str s = q # concat (map (repr_char q) s) @ [q]"
    using repr_str_shape by blast
  have "parse_string_body q (concat (map (repr_char q) s) @ q # rest) = Some (s, rest)"
    by (rule parse_string_body_repr [OF q])
  with q show ?thesis
    unfolding r by (auto simp: parse_value.simps skip_spaces_Cons)
qed

lemma parse_value_skip: "parse_value n (CHR 0x20 # s) = parse_value n s"
  by (cases n) (simp_all add: parse_value.simps skip_spaces_space)

lemma parse_items_skip: "parse_items n (CHR 0x20 # s) = parse_items n s"
  by (cases n) (simp_all add: parse_items.simps parse_value_skip)

lemma parse_items_last:
  assumes "parse_value n s = Some (v, CHR '']'' # r)"
  shows "parse_items (Suc n) s = Some ([v], r)"
  using assms by (simp add: parse_items.simps skip_spaces_Cons)

lemma parse_items_more:
  assumes "parse_value n s = Some (v, CHR '','' # CHR 0x20 # c # cs)"
    and "c \<noteq> CHR 0x20" and "c \<noteq> CHR '']''"
    and "parse_items n (c # cs) = Some (vs, r)"
  shows "parse_items (Suc n) s = Some (v # vs, r)"
  using assms
  by (simp add: parse_items.simps skip_spaces_Cons skip_spaces_space parse_items_skip)

lemma parse_value_list_empty:
  "parse_value (Suc n) (CHR ''['' # CHR '']'' # r) = Some (PList [], r)"
  by (simp add: parse_value.simps skip_spaces_Cons)

lemma parse_value_list:
  assumes "c \<noteq> CHR 0x20" and "c \<noteq> CHR '']''"
    and "parse_items n (c # cs) = Some (vs, r)"
  shows "parse_value (Suc n) (CHR ''['' # c # cs) = Some (PList vs, r)"
  using assms by (simp add: parse_value.simps skip_spaces_Cons)

text \<open>A representation starts with a character that is neither a blank nor \<open>]\<close>.\<close>

lemma repr_int_head:
  "\<exists>c cs. repr_int i = c # cs \<and> c \<noteq> CHR 0x20 \<and> c \<noteq> CHR '']''"
  using digits_of_Cons [of "nat i"] is_digit_not_special(1,3)
  by (auto simp: repr_int_def)

lemma py_repr_head:
  "\<exists>c cs. py_repr v = c # cs \<and> c \<noteq> CHR 0x20 \<and> c \<noteq> CHR '']''"
proof (cases v)
  case (PInt i)
  then show ?thesis
    using repr_int_head by simp
next
  case (PStr s)
  then show ?thesis
    using repr_str_shape [of s] by auto
next
  case (PList xs)
  then show ?thesis
    by simp
qed

lemma repr_items_head:
  assumes "xs \<noteq> []"
  shows "\<exists>c cs. repr_items xs @ rest = c # cs \<and> c \<noteq> CHR 0x20 \<and> c \<noteq> CHR '']''"
proof -
  from assms obtain x ys where xs: "xs = x # ys"
    by (cases xs) auto
  obtain c cs where "py_repr x = c # cs" "c \<noteq> CHR 0x20" "c \<noteq> CHR '']''"
    using py_repr_head by blast
  then show ?thesis
    unfolding xs by (cases ys) simp_all
qed

lemma parse_repr:
  "value_fuel v \<le> n \<Longrightarrow> rest = [] \<or> \<not> is_digit (hd rest) \<Longrightarrow>
     parse_value n (py_repr v @ rest) = Some (v, rest)"
  "xs \<noteq> [] \<Longrightarrow> items_fuel xs \<le> n \<Longrightarrow>
     parse_items n (repr_items xs @ CHR '']'' # rest') = Some (xs, rest')"
proof (induction v and xs arbitrary: n rest and n rest' rule: py_repr_repr_items.induct)
  case (1 i)
  then obtain m where "n = Suc m"
    by (cases n) auto
  with 1 show ?case
    by (simp add: parse_value_repr_int)
next
  case (2 s)
  then obtain m where "n = Suc m"
    by (cases n) auto
  then show ?case
    by (simp add: parse_value_repr_str)
next
  case (3 xs)
  from "3.prems" obtain m where n: "n = Suc m" and m: "items_fuel xs \<le> m"
    by (cases n) auto
  show ?case
  proof (cases "xs = []")
    case True
    then show ?thesis
      by (simp add: n parse_value_list_empty)
  next
    case False
    obtain c cs where h: "repr_items xs @ CHR '']'' # rest = c # cs"
      "c \<noteq> CHR 0x20" "c \<noteq> CHR '']''"
      using repr_items_head [OF False] by blast
    have "parse_items m (c # cs) = Some (xs, rest)"
      using "3.IH" [OF False m, of rest] h(1) by simp
    from parse_value_list [OF h(2,3) this] show ?thesis
      using h(1) by (simp add: n)
  qed
next
  case 4
  then show ?case by simp
next
  case (5 x)
  from "5.prems" obtain m where n: "n = Suc m" and m: "value_fuel x \<le> m"
    by (cases n) auto
  have "\<not> is_digit (CHR '']'')"
    by (simp add: is_digit_def)
  then have "parse_value m (py_repr x @ CHR '']'' # rest') = Some (x, CHR '']'' # rest')"
    using "5.IH" [OF m, of "CHR '']'' # rest'"] by simp
  from parse_items_last [OF this] show ?case
    by (simp add: n)
next
  case (6 x y ys)
  from "6.prems" obtain m where n: "n = Suc m"
    and mx: "value_fuel x \<le> m" and my: "items_fuel (y # ys) \<le> m"
    by (cases n) auto
  obtain c cs where h: "repr_items (y # ys) @ CHR '']'' # rest' = c # cs"
    "c \<noteq> CHR 0x20" "c \<noteq> CHR '']''"
    using repr_items_head [of "y # ys"] by blast
  have "\<not> is_digit (CHR '','')"
    by (simp add: is_digit_def)
  then have a: "parse_value m (py_repr x @ CHR '','' # CHR 0x20 # c # cs)
      = Some (x, CHR '','' # CHR 0x20 # c # cs)"
    using "6.IH"(1) [OF mx, of "CHR '','' # CHR 0x20 # c # cs"] by simp
  have b: "parse_items m (c # cs) = Some (y # ys, rest')"
    using "6.IH"(2) [OF _ my, of rest'] h(1) by simp
  have "parse_items (Suc m) (py_repr x @ CHR '','' # CHR 0x20 # c # cs)
      = Some (x # y # ys, rest')"
    by (rule parse_items_more [OF a h(2,3) b])
  then show ?case
    using h(1) by (simp add: n)
qed

section \<open>The record read back\<close>

lemma repr_int_length: "1 \<le> length (repr_int i)"
  using digits_of_nonempty [of "nat i"] digits_of_nonempty [of "nat (- i)"]
  by (auto simp: repr_int_def Suc_le_eq)

lemma fuel_bound:
  "value_fuel v \<le> length (py_repr v)"
  "items_fuel xs \<le> Suc (length (repr_items xs))"
proof (induction v and xs rule: py_repr_repr_items.induct)
  case (1 i)
  then show ?case
    using repr_int_length [of i] by simp
next
  case (2 s)
  then show ?case
    by (simp add: repr_str_def Let_def)
qed simp_all

lemma py_eval_repr: "py_eval (py_repr v) = Some v"
proof -
  have "value_fuel v \<le> Suc (length (py_repr v))"
    using fuel_bound(1) [of v] by simp
  from parse_repr(1) [OF this, of "[]"] show ?thesis
    by (simp add: py_eval_def skip_spaces_def)
qed

lemma py_strip_line:
  assumes "t \<noteq> []" and "\<not> is_space (hd t)" and "\<not> is_space (last t)"
  shows "py_strip (t @ [CHR 0x0A]) = t"
proof -
  have "dropWhile is_space (t @ [CHR 0x0A]) = t @ [CHR 0x0A]"
    using assms(1,2) by (cases t) simp_all
  moreover have "dropWhile is_space (rev t) = rev t"
    using assms(1,3) by (cases "rev t") (simp_all add: last_rev [symmetric] hd_rev)
  ultimately show ?thesis
    by (simp add: py_strip_def is_space_def)
qed

lemma py_strip_list: "py_strip (py_repr (PList xs) @ [CHR 0x0A]) = py_repr (PList xs)"
  by (rule py_strip_line) (simp_all add: is_space_def)

text \<open>
  C7: the text that a list of integers, strings and lists is written as, followed by
  a newline as \<^verbatim>\<open>calibrate\<close> writes it, is read back by \<^verbatim>\<open>strip\<close> and \<^verbatim>\<open>eval\<close>
  as the same list. A calibration record is such a list.
\<close>

theorem record_round_trip:
  "py_eval (py_strip (py_str (PList xs) @ [CHR 0x0A])) = Some (PList xs)"
  unfolding py_str_def pyval.case py_strip_list by (rule py_eval_repr)

section \<open>A calibration run on a concrete file\<close>

lemma digit_chars:
  "digit_char 0 = CHR ''0''" "digit_char 1 = CHR ''1''" "digit_char 2 = CHR ''2''"
  "digit_char 3 = CHR ''3''" "digit_char 4 = CHR ''4''" "digit_char 5 = CHR ''5''"
  "digit_char 6 = CHR ''6''" "digit_char 7 = CHR ''7''" "digit_char 8 = CHR ''8''"
  "digit_char 9 = CHR ''9''" "digit_char (Suc 0) = CHR ''1''"
  unfolding digit_char_def by (rule of_char_eqI [where ?'a = nat]; simp)+

lemma sample_file_lines:
  "readlines sample_file =
     [''# Calibration (will be automatically written)'' @ [CHR 0x0A],
      ''[]'' @ [CHR 0x0A],
      ''# Created by Tueftler.py'' @ [CHR 0x0A]]"
  by (simp add: sample_file_def)

lemma tie_cal_data: "cal_data (calibrate tie_instance) = PList tie_record"
  by (simp add: calibrate_entries tie_instance_def tie_record_def unloaded_def pose_entry_def
      snth_one snth_numeral Let_def)

lemma tie_record_text: "py_str (PList tie_record) = tie_text"
  by (simp add: py_str_def tie_record_def tie_text_def repr_int_def repr_str_def repr_char_def
      Let_def digits_of.simps digit_chars)

theorem calibrate_rewrites_line_2_witness:
  "readlines (file_text (calibrate tie_instance)) =
     [''# Calibration (will be automatically written)'' @ [CHR 0x0A],
      tie_text @ [CHR 0x0A],
      ''# Created by Tueftler.py'' @ [CHR 0x0A]]"
proof -
  have "file_writable tie_instance" and "file_text tie_instance = sample_file"
    by (simp_all add: tie_instance_def unloaded_def)
  then show ?thesis
    using calibrate_rewrites_line_2 [of tie_instance]
    by (simp add: sample_file_lines tie_cal_data tie_record_text)
qed

theorem record_round_trip_witness:
  "py_eval (py_strip (tie_text @ [CHR 0x0A])) = Some (PList tie_record)"
  using record_round_trip [of tie_record] by (simp only: tie_record_text)

lemma calibrate_then_read:
  assumes "file_writable self" and "2 \<le> length (readlines (file_text self))"
  shows "read_cal_data (calibrate self) = Inr (calibrate self)"
proof -
  obtain xs where xs: "cal_data (calibrate self) = PList xs"
    using calibrate_cal_data_list by blast
  obtain l0 l1 rest where ls: "readlines (file_text self) = l0 # l1 # rest"
    using assms(2) by (cases "readlines (file_text self)"; cases "tl (readlines (file_text self))") auto
  have "readlines (file_text (calibrate self)) = l0 # (py_repr (PList xs) @ [CHR 0x0A]) # rest"
    using calibrate_lines [OF assms] by (simp add: ls xs)
  then have "read_cal_data (calibrate self) = Inr ((calibrate self)\<lparr>cal_data := PList xs\<rparr>)"
    by (simp add: read_cal_data_def Let_def py_strip_list py_eval_repr del: py_repr.simps)
  moreover have "(calibrate self)\<lparr>cal_data := PList xs\<rparr> = calibrate self"
    by (simp add: xs [symmetric])
  ultimately show ?thesis
    by simp
qed

lemma sample_file_uncalibrated:
  "read_cal_data tie_instance = Inr (tie_instance\<lparr>cal_data := PList []\<rparr>)"
proof -
  have "file_text tie_instance = sample_file"
    by (simp add: tie_instance_def unloaded_def)
  moreover have "py_eval (py_strip (py_repr (PList []) @ [CHR 0x0A])) = Some (PList [])"
    unfolding py_strip_list by (rule py_eval_repr)
  ultimately show ?thesis
    by (simp add: read_cal_data_def sample_file_lines)
qed

end
